theory Spec2Isabelle
  imports Complex_Main "HOL-Library.Sublist"
begin

section \<open>Python values and exceptions\<close>

text \<open>
  The program passes chunks, metadata and retrieval results around as Python dictionaries
  with string keys and values of any type. A dictionary is a partial map from keys to
  values; the values are the Python objects the program builds or reads.
\<close>

datatype pyval =
    VNone
  | VBool bool
  | VInt int
  | VFloat real
  | VStr string
  | VList "pyval list"
  | VDict "string \<Rightarrow> pyval option"

type_synonym pydict = "string \<rightharpoonup> pyval"

text \<open>Every \<open>raise\<close> of the program and of its collaborators is a value of this type.\<close>

datatype error =
    KeyError string
  | IndexError string
  | AttributeError string
  | TypeError string
  | ValueError string
  | PyException string

fun err_str :: "error \<Rightarrow> string" where
  "err_str (KeyError k) = [CHR 0x27] @ k @ [CHR 0x27]"
| "err_str (IndexError m) = m"
| "err_str (AttributeError m) = m"
| "err_str (TypeError m) = m"
| "err_str (ValueError m) = m"
| "err_str (PyException m) = m"

text \<open>The name of a value's type, as it appears in the text of an exception.\<close>

fun type_name :: "pyval \<Rightarrow> string" where
  "type_name VNone = ''NoneType''"
| "type_name (VBool b) = ''bool''"
| "type_name (VInt i) = ''int''"
| "type_name (VFloat x) = ''float''"
| "type_name (VStr s) = ''str''"
| "type_name (VList xs) = ''list''"
| "type_name (VDict d) = ''dict''"


definition getitem :: "pydict \<Rightarrow> string \<Rightarrow> error + pyval" where
  "getitem d k = (case d k of None \<Rightarrow> Inl (KeyError k) | Some v \<Rightarrow> Inr v)"

section \<open>Strings\<close>

text \<open>
  A text is a list of characters; a character stands for the code point of the same
  number, so the model covers texts of code points below 256. On these, \<open>str.lower\<close>
  maps \<open>A..Z\<close> and the Latin-1 capitals (192 to 222, without the multiplication sign 215)
  to the code point 32 higher, which is the same character with bit 5 set.
\<close>

definition char_lower :: "char \<Rightarrow> char" where
  "char_lower c =
     (let n = (of_char c :: nat) in
      if (65 \<le> n \<and> n \<le> 90) \<or> (192 \<le> n \<and> n \<le> 222 \<and> n \<noteq> 215)
      then (case c of Char b0 b1 b2 b3 b4 b5 b6 b7 \<Rightarrow> Char b0 b1 b2 b3 b4 True b6 b7)
      else c)"

definition lower :: "string \<Rightarrow> string" where
  "lower s = map char_lower s"

text \<open>The characters \<open>str.strip\<close> and \<open>str.split\<close> treat as whitespace.\<close>

definition is_space :: "char \<Rightarrow> bool" where
  "is_space c =
     (let n = (of_char c :: nat) in
      (9 \<le> n \<and> n \<le> 13) \<or> (28 \<le> n \<and> n \<le> 32) \<or> n = 133 \<or> n = 160)"

definition strip :: "string \<Rightarrow> string" where
  "strip s = rev (dropWhile is_space (rev (dropWhile is_space s)))"

fun split_acc :: "string \<Rightarrow> string \<Rightarrow> string list" where
  "split_acc w [] = (if w = [] then [] else [w])"
| "split_acc w (c # cs) =
     (if is_space c then (if w = [] then split_acc [] cs else w # split_acc [] cs)
      else split_acc (w @ [c]) cs)"

definition py_split :: "string \<Rightarrow> string list" where
  "py_split s = split_acc [] s"

text \<open>\<open>k in t\<close> on strings: \<open>k\<close> occurs in \<open>t\<close> as a contiguous run.\<close>

fun contains :: "string \<Rightarrow> string \<Rightarrow> bool" where
  "contains k [] = (k = [])"
| "contains k (c # cs) = (prefix k (c # cs) \<or> contains k cs)"


subsection \<open>Paths\<close>

text \<open>
  \<open>os.path.basename\<close> and \<open>os.path.splitext\<close> on POSIX paths. \<open>rfind\<close> is the index of
  the last occurrence, or -1. The extension starts at the last dot of the last path
  component, unless only dots come before it in that component.
\<close>

definition rfind :: "char \<Rightarrow> string \<Rightarrow> int" where
  "rfind c s =
     (if c \<in> set s then int (length s) - 1 - int (length (takeWhile (\<lambda>x. x \<noteq> c) (rev s)))
      else - 1)"

definition basename :: "string \<Rightarrow> string" where
  "basename p = drop (nat (rfind (CHR ''/'') p + 1)) p"

definition splitext :: "string \<Rightarrow> string \<times> string" where
  "splitext p =
     (let sepIndex = rfind (CHR ''/'') p;
          dotIndex = rfind (CHR ''.'') p
      in if dotIndex > sepIndex \<and>
            list_ex (\<lambda>c. c \<noteq> CHR ''.'') (take (nat (dotIndex - (sepIndex + 1))) (drop (nat (sepIndex + 1)) p))
         then (take (nat dotIndex) p, drop (nat dotIndex) p)
         else (p, []))"

section \<open>Configuration\<close>

text \<open>
  The settings read from the environment. A credential that is not set is \<open>None\<close>;
  \<open>validate\<close> lists every credential that is missing or empty.
\<close>

record config =
  OPENAI_API_KEY :: "string option"
  OPENROUTER_API_KEY :: "string option"
  SUPABASE_URL :: "string option"
  SUPABASE_KEY :: "string option"
  CHUNK_SIZE :: int
  CHUNK_OVERLAP :: int
  TOP_K_RESULTS :: int

definition unset :: "string option \<Rightarrow> bool" where
  "unset v = (case v of None \<Rightarrow> True | Some s \<Rightarrow> s = [])"

definition missing_vars :: "config \<Rightarrow> string list" where
  "missing_vars cfg =
     (if unset (OPENAI_API_KEY cfg) then [''OPENAI_API_KEY''] else []) @
     (if unset (OPENROUTER_API_KEY cfg) then [''OPENROUTER_API_KEY''] else []) @
     (if unset (SUPABASE_URL cfg) then [''SUPABASE_URL''] else []) @
     (if unset (SUPABASE_KEY cfg) then [''SUPABASE_KEY''] else [])"

section \<open>The document processor\<close>

text \<open>
  The two splitters are library objects held by the processor: the header splitter returns
  the sections of a Markdown text, each with the headings that enclose it, and the token
  splitter (built with the configured chunk size and overlap and the cl100k_base encoding)
  returns the pieces of a text. Either may raise.
\<close>

record header_split =
  page_content :: string
  split_metadata :: "string \<rightharpoonup> string"

record document_processor =
  markdown_splitter :: "string \<Rightarrow> error + header_split list"
  token_splitter :: "string \<Rightarrow> error + string list"

record semantic_info =
  content_type :: string
  key_topics :: "string list"

definition claims_words :: "string list" where
  "claims_words = [''claim'', ''injury'', ''compensation'', ''benefits'']"

definition legal_words :: "string list" where
  "legal_words = [''law'', ''regulation'', ''policy'', ''rule'']"

definition procedural_words :: "string list" where
  "procedural_words = [''process'', ''step'', ''procedure'', ''how to'']"

definition contact_words :: "string list" where
  "contact_words = [''contact'', ''phone'', ''email'', ''address'']"

definition keywords_list :: "string list" where
  "keywords_list =
     [''workers compensation'', ''injury'', ''claim'', ''benefits'', ''medical'',
      ''rehabilitation'', ''return to work'', ''permanent impairment'', ''weekly payments'',
      ''employer'', ''employee'', ''insurance'', ''legal'', ''appeal'', ''dispute'']"

text \<open>The loop \<open>for keyword in keywords: if keyword in text_lower: key_topics.append(keyword)\<close>.\<close>

fun key_topics_loop :: "string \<Rightarrow> string list \<Rightarrow> string list \<Rightarrow> string list" where
  "key_topics_loop text_lower [] acc = acc"
| "key_topics_loop text_lower (keyword # rest) acc =
     key_topics_loop text_lower rest
       (if contains keyword text_lower then acc @ [keyword] else acc)"

definition extract_semantic_info :: "string \<Rightarrow> semantic_info" where
  "extract_semantic_info text =
     (let text_lower = lower text;
          ctype =
            (if list_ex (\<lambda>word. contains word text_lower) claims_words then ''claims''
             else if list_ex (\<lambda>word. contains word text_lower) legal_words then ''legal''
             else if list_ex (\<lambda>word. contains word text_lower) procedural_words then ''procedural''
             else if list_ex (\<lambda>word. contains word text_lower) contact_words then ''contact''
             else ''general'')
      in \<lparr> content_type = ctype,
           key_topics = key_topics_loop text_lower keywords_list [] \<rparr>)"

subsection \<open>The general path\<close>

definition general_chunk :: "string \<Rightarrow> string \<Rightarrow> int \<Rightarrow> int \<Rightarrow> string \<Rightarrow> pydict" where
  "general_chunk filename title i n chunk_text =
     (let info = extract_semantic_info chunk_text in
      [''content'' \<mapsto> VStr (strip chunk_text),
       ''metadata'' \<mapsto> VDict
         [''filename'' \<mapsto> VStr filename,
          ''title'' \<mapsto> VStr title,
          ''chunk_index'' \<mapsto> VInt i,
          ''total_chunks'' \<mapsto> VInt n,
          ''file_type'' \<mapsto> VStr (lower (snd (splitext filename))),
          ''semantic_split'' \<mapsto> VBool True,
          ''content_type'' \<mapsto> VStr (content_type info),
          ''key_topics'' \<mapsto> VList (map VStr (key_topics info)),
          ''word_count'' \<mapsto> VInt (int (length (py_split chunk_text)))]])"

text \<open>The loop over \<open>enumerate(text_chunks)\<close>: \<open>i\<close> is the running index, \<open>n\<close> is \<open>len(text_chunks)\<close>.\<close>

fun general_loop :: "string \<Rightarrow> string \<Rightarrow> int \<Rightarrow> int \<Rightarrow> string list \<Rightarrow> pydict list \<Rightarrow> pydict list" where
  "general_loop filename title n i [] chunks = chunks"
| "general_loop filename title n i (chunk_text # rest) chunks =
     general_loop filename title n (i + 1) rest
       (chunks @ [general_chunk filename title i n chunk_text])"

definition chunk_general_semantic ::
  "document_processor \<Rightarrow> string \<Rightarrow> string \<Rightarrow> string \<Rightarrow> error + pydict list" where
  "chunk_general_semantic p text filename title =
     (case token_splitter p text of
        Inl e \<Rightarrow> Inl e
      | Inr text_chunks \<Rightarrow>
          Inr (general_loop filename title (int (length text_chunks)) 0 text_chunks []))"

subsection \<open>The Markdown path\<close>

definition markdown_chunk ::
  "string \<Rightarrow> string \<Rightarrow> int \<Rightarrow> string \<Rightarrow> int \<Rightarrow> int \<Rightarrow> string \<Rightarrow> pydict" where
  "markdown_chunk filename title chunk_index header_info i n chunk_text =
     [''content'' \<mapsto> VStr (strip chunk_text),
      ''metadata'' \<mapsto> VDict
        [''filename'' \<mapsto> VStr filename,
         ''title'' \<mapsto> VStr title,
         ''chunk_index'' \<mapsto> VInt chunk_index,
         ''section_header'' \<mapsto> VStr header_info,
         ''file_type'' \<mapsto> VStr ''markdown'',
         ''semantic_split'' \<mapsto> VBool True,
         ''sub_chunk_index'' \<mapsto> VInt i,
         ''total_sub_chunks'' \<mapsto> VInt n]]"

text \<open>
  \<open>split.metadata.get('Header 1', '') or split.metadata.get('Header 2', '') or
  split.metadata.get('Header 3', '')\<close>: the first non-empty one, else the last.
\<close>

definition md_get :: "(string \<rightharpoonup> string) \<Rightarrow> string \<Rightarrow> string" where
  "md_get m k = (case m k of None \<Rightarrow> [] | Some v \<Rightarrow> v)"

definition header_info_of :: "header_split \<Rightarrow> string" where
  "header_info_of split =
     (if md_get (split_metadata split) ''Header 1'' \<noteq> [] then md_get (split_metadata split) ''Header 1''
      else if md_get (split_metadata split) ''Header 2'' \<noteq> [] then md_get (split_metadata split) ''Header 2''
      else md_get (split_metadata split) ''Header 3'')"

text \<open>
  The inner loop over \<open>enumerate(sub_chunks)\<close>; the state is the list \<open>chunks\<close> and the
  counter \<open>chunk_index\<close>, which runs across all sections.
\<close>

fun sub_chunk_loop ::
  "string \<Rightarrow> string \<Rightarrow> string \<Rightarrow> int \<Rightarrow> int \<Rightarrow> string list \<Rightarrow> pydict list \<times> int \<Rightarrow> pydict list \<times> int" where
  "sub_chunk_loop filename title header_info n i [] st = st"
| "sub_chunk_loop filename title header_info n i (chunk_text # rest) (chunks, chunk_index) =
     sub_chunk_loop filename title header_info n (i + 1) rest
       (chunks @ [markdown_chunk filename title chunk_index header_info i n chunk_text],
        chunk_index + 1)"

text \<open>
  A section longer than \<open>Config.CHUNK_SIZE\<close> (\<open>len\<close> of the string) goes through the
  token splitter; any other is one sub-chunk.
\<close>

definition section_too_long :: "config \<Rightarrow> header_split \<Rightarrow> bool" where
  "section_too_long cfg split = (int (length (page_content split)) > CHUNK_SIZE cfg)"

definition sub_chunks_of :: "document_processor \<Rightarrow> config \<Rightarrow> header_split \<Rightarrow> error + string list" where
  "sub_chunks_of p cfg split =
     (if section_too_long cfg split
      then token_splitter p (page_content split)
      else Inr [page_content split])"

fun header_loop ::
  "document_processor \<Rightarrow> config \<Rightarrow> string \<Rightarrow> string \<Rightarrow> header_split list \<Rightarrow>
   pydict list \<times> int \<Rightarrow> error + pydict list \<times> int" where
  "header_loop p cfg filename title [] st = Inr st"
| "header_loop p cfg filename title (split # rest) st =
     (case sub_chunks_of p cfg split of
        Inl e \<Rightarrow> Inl e
      | Inr sub_chunks \<Rightarrow>
          header_loop p cfg filename title rest
            (sub_chunk_loop filename title (header_info_of split)
               (int (length sub_chunks)) 0 sub_chunks st))"

text \<open>\<open>chunk["metadata"]["total_chunks"] = n\<close>, for every chunk in turn.\<close>

definition set_total_chunks :: "int \<Rightarrow> pydict \<Rightarrow> error + pydict" where
  "set_total_chunks n chunk =
     (case chunk ''metadata'' of
        None \<Rightarrow> Inl (KeyError ''metadata'')
      | Some (VDict m) \<Rightarrow> Inr (chunk(''metadata'' \<mapsto> VDict (m(''total_chunks'' \<mapsto> VInt n))))
      | Some (VList xs) \<Rightarrow> Inl (TypeError ''list indices must be integers or slices, not str'')
      | Some v \<Rightarrow>
          Inl (TypeError ([CHR 0x27] @ type_name v @ [CHR 0x27] @
                          '' object does not support item assignment'')))"

fun update_total_chunks :: "int \<Rightarrow> pydict list \<Rightarrow> error + pydict list" where
  "update_total_chunks n [] = Inr []"
| "update_total_chunks n (chunk # rest) =
     (case set_total_chunks n chunk of
        Inl e \<Rightarrow> Inl e
      | Inr chunk' \<Rightarrow>
          (case update_total_chunks n rest of
             Inl e \<Rightarrow> Inl e
           | Inr rest' \<Rightarrow> Inr (chunk' # rest')))"

text \<open>The body of the \<open>try\<close>.\<close>

definition markdown_try ::
  "document_processor \<Rightarrow> config \<Rightarrow> string \<Rightarrow> string \<Rightarrow> string \<Rightarrow> error + pydict list" where
  "markdown_try p cfg text filename title =
     (case markdown_splitter p text of
        Inl e \<Rightarrow> Inl e
      | Inr header_splits \<Rightarrow>
          (case header_loop p cfg filename title header_splits ([], 0) of
             Inl e \<Rightarrow> Inl e
           | Inr (chunks, chunk_index) \<Rightarrow> update_total_chunks (int (length chunks)) chunks))"

text \<open>\<open>except Exception\<close>: whatever the body raised, the general path runs on the whole text.\<close>

definition chunk_markdown_semantic ::
  "document_processor \<Rightarrow> config \<Rightarrow> string \<Rightarrow> string \<Rightarrow> string \<Rightarrow> error + pydict list" where
  "chunk_markdown_semantic p cfg text filename title =
     (case markdown_try p cfg text filename title of
        Inr chunks \<Rightarrow> Inr chunks
      | Inl e \<Rightarrow> chunk_general_semantic p text filename title)"

subsection \<open>Dispatch on the file extension\<close>

text \<open>\<open>not title\<close> holds for \<open>None\<close> and for the empty string.\<close>

definition title_or_stem :: "string option \<Rightarrow> string \<Rightarrow> string" where
  "title_or_stem title filename =
     (case title of
        None \<Rightarrow> fst (splitext (basename filename))
      | Some t \<Rightarrow> if t = [] then fst (splitext (basename filename)) else t)"

definition chunk_text ::
  "document_processor \<Rightarrow> config \<Rightarrow> string \<Rightarrow> string \<Rightarrow> string option \<Rightarrow> error + pydict list" where
  "chunk_text p cfg text filename title =
     (let title' = title_or_stem title filename;
          file_extension = lower (snd (splitext filename))
      in if file_extension \<in> set [''.md'', ''.markdown'']
         then chunk_markdown_semantic p cfg text filename title'
         else chunk_general_semantic p text filename title')"

text \<open>Reading a chunk's metadata.\<close>

definition metadata_of :: "pydict \<Rightarrow> string \<Rightarrow> pyval option" where
  "metadata_of chunk k =
     (case chunk ''metadata'' of Some (VDict m) \<Rightarrow> m k | _ \<Rightarrow> None)"

section \<open>Library functions of the Python runtime\<close>

text \<open>
  \<open>json.dumps\<close> and \<open>json.loads\<close> (either may raise), \<open>str()\<close> of a float or a container, and
  the format specification \<open>:.2f\<close>, which raises on a value that is not a number.
\<close>

record python_lib =
  json_dumps :: "pyval \<Rightarrow> error + string"
  json_loads :: "string \<Rightarrow> error + pyval"
  repr_value :: "pyval \<Rightarrow> string"
  format_2f :: "pyval \<Rightarrow> error + string"



text \<open>\<open>sep.join(parts)\<close>.\<close>

fun join :: "string \<Rightarrow> string list \<Rightarrow> string" where
  "join sep [] = []"
| "join sep [x] = x"
| "join sep (x # y # ys) = x @ sep @ join sep (y # ys)"

definition validate :: "config \<Rightarrow> error + bool" where
  "validate cfg =
     (if missing_vars cfg \<noteq> []
      then Inl (ValueError (''Missing required environment variables: '' @ join '', '' (missing_vars cfg)))
      else Inr True)"

section \<open>The embedding service\<close>

text \<open>
  \<open>openai.embeddings.create(model, input)\<close> followed by reading \<open>embedding\<close> off every
  entry of \<open>response.data\<close>: the vectors the provider sent back, or the exception raised.
\<close>

record embedding_service =
  embeddings_create :: "pyval \<Rightarrow> error + real list list"


definition get_embeddings_batch :: "embedding_service \<Rightarrow> pyval list \<Rightarrow> error + real list list" where
  "get_embeddings_batch es texts =
     (case embeddings_create es (VList texts) of
        Inl e \<Rightarrow> Inl (PyException (''Error getting batch embeddings: '' @ err_str e))
      | Inr vs \<Rightarrow> Inr vs)"

text \<open>\<open>[chunk["content"] for chunk in chunks]\<close>.\<close>

fun contents_of :: "pydict list \<Rightarrow> error + pyval list" where
  "contents_of [] = Inr []"
| "contents_of (chunk # rest) =
     (case getitem chunk ''content'' of
        Inl e \<Rightarrow> Inl e
      | Inr c \<Rightarrow> (case contents_of rest of Inl e \<Rightarrow> Inl e | Inr cs \<Rightarrow> Inr (c # cs)))"

text \<open>
  The loop \<open>for i, embedding in enumerate(embeddings): chunks[i]["embedding"] = embedding\<close>;
  \<open>chunks[i]\<close> raises when the provider sent more vectors than there are chunks.
\<close>

fun assign_embeddings :: "nat \<Rightarrow> real list list \<Rightarrow> pydict list \<Rightarrow> error + pydict list" where
  "assign_embeddings i [] chunks = Inr chunks"
| "assign_embeddings i (embedding # rest) chunks =
     (if i < length chunks
      then assign_embeddings (i + 1) rest
             (chunks[i := (chunks ! i)(''embedding'' \<mapsto> VList (map VFloat embedding))])
      else Inl (IndexError ''list index out of range''))"

definition embed_chunks :: "embedding_service \<Rightarrow> pydict list \<Rightarrow> error + pydict list" where
  "embed_chunks es chunks =
     (case contents_of chunks of
        Inl e \<Rightarrow> Inl e
      | Inr texts \<Rightarrow>
          (case get_embeddings_batch es texts of
             Inl e \<Rightarrow> Inl e
           | Inr embeddings \<Rightarrow> assign_embeddings 0 embeddings chunks))"

section \<open>The store\<close>

text \<open>The two tables \<open>chat_bot_documents\<close> and \<open>chat_bot_document_chunks\<close>.\<close>

record document_row =
  doc_id :: string
  doc_filename :: string
  doc_title :: string
  doc_content_type :: string
  doc_file_size :: int

record chunk_row =
  row_document_id :: string
  row_chunk_index :: int
  row_content :: pyval
  row_metadata :: string
  row_embedding :: pyval

record database =
  chat_bot_documents :: "document_row list"
  chat_bot_document_chunks :: "chunk_row list"

text \<open>
  The client's requests are answered by the remote store. An insert request either raises
  and writes nothing, or writes all the rows of the request; the store chooses the id of a
  new document. \<open>match_documents\<close> is the stored procedure \<open>chat_bot_match_documents\<close>,
  called with the query vector, the threshold and the count.
\<close>

record supabase_client =
  documents_insert :: "database \<Rightarrow> string \<Rightarrow> string \<Rightarrow> string \<Rightarrow> int \<Rightarrow> error + string"
  chunks_insert :: "database \<Rightarrow> chunk_row list \<Rightarrow> error option"
  match_documents :: "database \<Rightarrow> real list \<Rightarrow> real \<Rightarrow> int \<Rightarrow> error + pydict list"

definition insert_document ::
  "supabase_client \<Rightarrow> database \<Rightarrow> string \<Rightarrow> string \<Rightarrow> string \<Rightarrow> int \<Rightarrow> (error + string) \<times> database" where
  "insert_document c db filename title ctype file_size =
     (case documents_insert c db filename title ctype file_size of
        Inl e \<Rightarrow> (Inl e, db)
      | Inr new_id \<Rightarrow>
          (Inr new_id,
           db\<lparr>chat_bot_documents := chat_bot_documents db @
                [\<lparr>doc_id = new_id, doc_filename = filename, doc_title = title,
                  doc_content_type = ctype, doc_file_size = file_size\<rparr>]\<rparr>))"

text \<open>
  The loop over \<open>enumerate(chunks)\<close> that builds \<open>chunk_data\<close>; the entries of each row are
  evaluated in the order written, so a missing \<open>content\<close> is reported before a missing
  \<open>embedding\<close>.
\<close>

fun chunk_data_loop ::
  "python_lib \<Rightarrow> string \<Rightarrow> int \<Rightarrow> pydict list \<Rightarrow> chunk_row list \<Rightarrow> error + chunk_row list" where
  "chunk_data_loop py document_id i [] chunk_data = Inr chunk_data"
| "chunk_data_loop py document_id i (chunk # rest) chunk_data =
     (case getitem chunk ''content'' of
        Inl e \<Rightarrow> Inl e
      | Inr c \<Rightarrow>
          (case getitem chunk ''metadata'' of
             Inl e \<Rightarrow> Inl e
           | Inr m \<Rightarrow>
               (case json_dumps py m of
                  Inl e \<Rightarrow> Inl e
                | Inr ms \<Rightarrow>
                    (case getitem chunk ''embedding'' of
                       Inl e \<Rightarrow> Inl e
                     | Inr emb \<Rightarrow>
                         chunk_data_loop py document_id (i + 1) rest
                           (chunk_data @
                              [\<lparr>row_document_id = document_id, row_chunk_index = i,
                                row_content = c, row_metadata = ms, row_embedding = emb\<rparr>])))))"

definition insert_chunks ::
  "supabase_client \<Rightarrow> python_lib \<Rightarrow> database \<Rightarrow> string \<Rightarrow> pydict list \<Rightarrow> (error + unit) \<times> database" where
  "insert_chunks c py db document_id chunks =
     (case chunk_data_loop py document_id 0 chunks [] of
        Inl e \<Rightarrow> (Inl e, db)
      | Inr chunk_data \<Rightarrow>
          (case chunks_insert c db chunk_data of
             Some e \<Rightarrow> (Inl e, db)
           | None \<Rightarrow>
               (Inr (),
                db\<lparr>chat_bot_document_chunks := chat_bot_document_chunks db @ chunk_data\<rparr>)))"


section \<open>Text extraction and the uploader\<close>

text \<open>
  What the processor reads from the file system and from the PDF and Markdown libraries:
  the texts of a PDF's pages, the HTML rendered from a Markdown file, the size of a file and
  whether a path exists. Each read may raise.
\<close>

record file_system =
  pdf_pages :: "string \<Rightarrow> error + string list"
  markdown_html :: "string \<Rightarrow> error + string"
  getsize :: "string \<Rightarrow> error + int"
  path_exists :: "string \<Rightarrow> bool"

definition extract_text_from_pdf :: "file_system \<Rightarrow> string \<Rightarrow> error + string" where
  "extract_text_from_pdf fs file_path =
     (case pdf_pages fs file_path of
        Inl e \<Rightarrow>
          Inl (PyException (''Error extracting text from PDF '' @ file_path @ '': '' @ err_str e))
      | Inr pages \<Rightarrow> Inr (strip (concat (map (\<lambda>page. page @ [CHR 0x0A]) pages))))"

text \<open>
  \<open>re.sub(r'<[^>]+>', '', html)\<close>: a \<open><\<close> followed by at least one character other than
  \<open>>\<close> and then a \<open>>\<close> is removed together with what it encloses.
\<close>

function remove_tags :: "string \<Rightarrow> string" where
  "remove_tags [] = []"
| "remove_tags (c # cs) =
     (if c = CHR ''<'' \<and> takeWhile (\<lambda>x. x \<noteq> CHR ''>'') cs \<noteq> []
          \<and> dropWhile (\<lambda>x. x \<noteq> CHR ''>'') cs \<noteq> []
      then remove_tags (tl (dropWhile (\<lambda>x. x \<noteq> CHR ''>'') cs))
      else c # remove_tags cs)"
  by pat_completeness auto
termination
proof (relation "measure length")
  show "wf (measure length)" by simp
next
  fix c :: char and cs :: string
  have "length (dropWhile (\<lambda>x. x \<noteq> CHR ''>'') cs) \<le> length cs"
    by (rule length_dropWhile_le)
  then show "(tl (dropWhile (\<lambda>x. x \<noteq> CHR ''>'') cs), c # cs) \<in> measure length"
    by simp
next
  fix c :: char and cs :: string
  show "(cs, c # cs) \<in> measure length" by simp
qed

definition extract_text_from_markdown :: "file_system \<Rightarrow> string \<Rightarrow> error + string" where
  "extract_text_from_markdown fs file_path =
     (case markdown_html fs file_path of
        Inl e \<Rightarrow>
          Inl (PyException (''Error extracting text from Markdown '' @ file_path @ '': '' @ err_str e))
      | Inr html \<Rightarrow> Inr (strip (remove_tags html)))"

definition extract_text :: "file_system \<Rightarrow> string \<Rightarrow> error + string" where
  "extract_text fs file_path =
     (let file_extension = lower (snd (splitext file_path))
      in if file_extension = ''.pdf'' then extract_text_from_pdf fs file_path
         else if file_extension \<in> set [''.md'', ''.markdown'']
         then extract_text_from_markdown fs file_path
         else Inl (ValueError (''Unsupported file type: '' @ file_extension)))"

record doc_info =
  info_filename :: string
  info_title :: string
  info_content_type :: string
  info_file_size :: int
  info_chunks :: "pydict list"
  info_total_chunks :: int

definition process_document ::
  "document_processor \<Rightarrow> config \<Rightarrow> file_system \<Rightarrow> string \<Rightarrow> string option \<Rightarrow> error + doc_info" where
  "process_document p cfg fs file_path title =
     (case extract_text fs file_path of
        Inl e \<Rightarrow> Inl e
      | Inr text \<Rightarrow>
          (let filename = basename file_path in
           case getsize fs file_path of
             Inl e \<Rightarrow> Inl e
           | Inr file_size \<Rightarrow>
               (let ctype = lower (snd (splitext filename));
                    title' = (case title of
                                None \<Rightarrow> fst (splitext filename)
                              | Some t \<Rightarrow> if t = [] then fst (splitext filename) else t)
                in case chunk_text p cfg text filename (Some title') of
                     Inl e \<Rightarrow> Inl e
                   | Inr chunks \<Rightarrow>
                       Inr \<lparr>info_filename = filename, info_title = title',
                            info_content_type = ctype, info_file_size = file_size,
                            info_chunks = chunks, info_total_chunks = int (length chunks)\<rparr>)))"

text \<open>
  The services the uploader builds, and the body of its loop for one file: process, embed,
  insert the document, insert the chunks. An exception at any step is caught, reported, and
  the loop goes on with the next file; the database is what the steps before it left.
\<close>

record uploader_services =
  up_supabase :: supabase_client
  up_processor :: document_processor
  up_embedding :: embedding_service
  up_files :: file_system
  up_python :: python_lib

definition store_document :: "uploader_services \<Rightarrow> database \<Rightarrow> doc_info \<Rightarrow> pydict list \<Rightarrow> database" where
  "store_document sv db info chunks_with_embeddings =
     (case insert_document (up_supabase sv) db (info_filename info) (info_title info)
             (info_content_type info) (info_file_size info) of
        (Inl e, db1) \<Rightarrow> db1
      | (Inr document_id, db1) \<Rightarrow>
          snd (insert_chunks (up_supabase sv) (up_python sv) db1 document_id chunks_with_embeddings))"

definition upload_file :: "uploader_services \<Rightarrow> config \<Rightarrow> database \<Rightarrow> string \<Rightarrow> database" where
  "upload_file sv cfg db file_path =
     (if \<not> path_exists (up_files sv) file_path then db
      else case process_document (up_processor sv) cfg (up_files sv) file_path None of
             Inl e \<Rightarrow> db
           | Inr info \<Rightarrow>
               (case embed_chunks (up_embedding sv) (info_chunks info) of
                  Inl e \<Rightarrow> db
                | Inr chunks_with_embeddings \<Rightarrow> store_document sv db info chunks_with_embeddings))"

fun upload_loop :: "uploader_services \<Rightarrow> config \<Rightarrow> database \<Rightarrow> string list \<Rightarrow> database" where
  "upload_loop sv cfg db [] = db"
| "upload_loop sv cfg db (file_path # rest) =
     upload_loop sv cfg (upload_file sv cfg db file_path) rest"

text \<open>A failed validation ends the run before any file is looked at.\<close>

definition upload_documents :: "uploader_services \<Rightarrow> config \<Rightarrow> database \<Rightarrow> string list \<Rightarrow> database" where
  "upload_documents sv cfg db file_paths =
     (case validate cfg of Inl e \<Rightarrow> db | Inr ok \<Rightarrow> upload_loop sv cfg db file_paths)"

section \<open>The answer composer\<close>













section \<open>The query entrypoint\<close>









section \<open>Notions used to state the properties\<close>

text \<open>
  The state of the Markdown loops is well indexed when the counter equals the number of
  chunks collected so far, and the chunk at position \<open>j\<close> carries a metadata dictionary with
  \<open>chunk_index\<close> equal to \<open>j\<close>.
\<close>

definition indexed_state :: "pydict list \<times> int \<Rightarrow> bool" where
  "indexed_state st =
     (snd st = int (length (fst st)) \<and>
      (\<forall>j < length (fst st).
         metadata_of (fst st ! j) ''chunk_index'' = Some (VInt (int j)) \<and>
         (\<exists>m. (fst st ! j) ''metadata'' = Some (VDict m))))"

text \<open>
  The classification as the specification words it: the keyword groups in their order of
  precedence, the first group with a keyword in the text wins, and \<open>general\<close> is the default.
\<close>

definition keyword_groups :: "(string \<times> string list) list" where
  "keyword_groups =
     [(''claims'', claims_words), (''legal'', legal_words),
      (''procedural'', procedural_words), (''contact'', contact_words)]"

fun first_matching_group :: "string \<Rightarrow> (string \<times> string list) list \<Rightarrow> string" where
  "first_matching_group t [] = ''general''"
| "first_matching_group t ((name, ws) # groups) =
     (if \<exists>w \<in> set ws. sublist w t then name else first_matching_group t groups)"

text \<open>
  Two texts differ only in letter case when they have the same length and, at every
  position, characters with the same lower-case form.
\<close>

definition differ_only_in_case :: "string \<Rightarrow> string \<Rightarrow> bool" where
  "differ_only_in_case s t = list_all2 (\<lambda>a b. char_lower a = char_lower b) s t"

section \<open>Example collaborators\<close>

definition ex_config :: config where
  "ex_config =
     \<lparr>OPENAI_API_KEY = Some ''sk-1'', OPENROUTER_API_KEY = Some ''or-1'',
      SUPABASE_URL = Some ''https://db'', SUPABASE_KEY = Some ''key'',
      CHUNK_SIZE = 800, CHUNK_OVERLAP = 200, TOP_K_RESULTS = 5\<rparr>"

definition ex_markdown :: string where
  "ex_markdown = ''# Benefits'' @ [CHR 0x0A] @ ''You may claim weekly payments.'' @ [CHR 0x0A] @
                 ''# Appeals'' @ [CHR 0x0A] @ ''You may appeal within 28 days.''"

definition ex_sections :: "header_split list" where
  "ex_sections =
     [\<lparr>page_content = ''You may claim weekly payments.'', split_metadata = [''Header 1'' \<mapsto> ''Benefits'']\<rparr>,
      \<lparr>page_content = ''You may appeal within 28 days.'', split_metadata = [''Header 1'' \<mapsto> ''Appeals'']\<rparr>]"

text \<open>
  A processor whose header splitter knows the sections of the example document, finds no
  section in the empty text, fails on a text that holds a NUL character, and returns any
  other text as one section without headings; its token splitter returns a non-empty text
  as one piece.
\<close>

definition ex_processor :: document_processor where
  "ex_processor =
     \<lparr>markdown_splitter =
        (\<lambda>t. if t = ex_markdown then Inr ex_sections
             else if t = [] then Inr []
             else if CHR 0x00 \<in> set t then Inl (PyException ''cannot split'')
             else Inr [\<lparr>page_content = t, split_metadata = Map.empty\<rparr>]),
      token_splitter = (\<lambda>t. if t = [] then Inr [] else Inr [t])\<rparr>"





text \<open>The chunks of the example document: one per section, \<open>total_chunks\<close> filled in last.\<close>

definition ex_chunks :: "pydict list" where
  "ex_chunks =
     [[''content'' \<mapsto> VStr ''You may claim weekly payments.'',
       ''metadata'' \<mapsto> VDict
         [''filename'' \<mapsto> VStr ''guide.md'', ''title'' \<mapsto> VStr ''guide'',
          ''chunk_index'' \<mapsto> VInt 0, ''section_header'' \<mapsto> VStr ''Benefits'',
          ''file_type'' \<mapsto> VStr ''markdown'', ''semantic_split'' \<mapsto> VBool True,
          ''sub_chunk_index'' \<mapsto> VInt 0, ''total_sub_chunks'' \<mapsto> VInt 1,
          ''total_chunks'' \<mapsto> VInt 2]],
      [''content'' \<mapsto> VStr ''You may appeal within 28 days.'',
       ''metadata'' \<mapsto> VDict
         [''filename'' \<mapsto> VStr ''guide.md'', ''title'' \<mapsto> VStr ''guide'',
          ''chunk_index'' \<mapsto> VInt 1, ''section_header'' \<mapsto> VStr ''Appeals'',
          ''file_type'' \<mapsto> VStr ''markdown'', ''semantic_split'' \<mapsto> VBool True,
          ''sub_chunk_index'' \<mapsto> VInt 0, ''total_sub_chunks'' \<mapsto> VInt 1,
          ''total_chunks'' \<mapsto> VInt 2]]]"

text \<open>Two chunks whose own metadata gives both the index 7.\<close>

definition two_chunks :: "pydict list" where
  "two_chunks =
     [[''content'' \<mapsto> VStr ''first'', ''metadata'' \<mapsto> VDict [''chunk_index'' \<mapsto> VInt 7]],
      [''content'' \<mapsto> VStr ''second'', ''metadata'' \<mapsto> VDict [''chunk_index'' \<mapsto> VInt 7]]]"

definition ex_python :: python_lib where
  "ex_python =
     \<lparr>json_dumps = (\<lambda>v. Inr ''{}''),
      json_loads = (\<lambda>s. Inr (VDict Map.empty)),
      repr_value = (\<lambda>v. ''?''),
      format_2f = (\<lambda>v. Inr ''0.85'')\<rparr>"

text \<open>An embedding provider that answers a batch of \<open>n\<close> texts with \<open>n\<close> vectors, a single text with one.\<close>

definition ex_embedding :: embedding_service where
  "ex_embedding =
     \<lparr>embeddings_create =
        (\<lambda>input. case input of
                    VList texts \<Rightarrow> Inr (map (\<lambda>t. [1, 0]) texts)
                  | _ \<Rightarrow> Inr [[0, 1]])\<rparr>"

definition failing_embedding :: embedding_service where
  "failing_embedding = \<lparr>embeddings_create = (\<lambda>input. Inl (PyException ''quota exceeded''))\<rparr>"

definition ex_result :: pydict where
  "ex_result =
     [''content'' \<mapsto> VStr ''You may appeal within 28 days.'',
      ''metadata'' \<mapsto> VDict [''filename'' \<mapsto> VStr ''guide.md'', ''title'' \<mapsto> VStr ''guide''],
      ''similarity'' \<mapsto> VFloat (85 / 100)]"

text \<open>A store that accepts every insert and finds \<open>ex_result\<close> once a chunk is stored.\<close>

definition ex_supabase :: supabase_client where
  "ex_supabase =
     \<lparr>documents_insert = (\<lambda>db filename title ctype size. Inr ''doc-1''),
      chunks_insert = (\<lambda>db rows. None),
      match_documents =
        (\<lambda>db v threshold k. if chat_bot_document_chunks db = [] then Inr [] else Inr [ex_result])\<rparr>"

definition ex_files :: file_system where
  "ex_files =
     \<lparr>pdf_pages = (\<lambda>path. Inr [''You may claim weekly payments.'']),
      markdown_html = (\<lambda>path. Inr ''<p>You may appeal within 28 days.</p>''),
      getsize = (\<lambda>path. Inr 64),
      path_exists = (\<lambda>path. True)\<rparr>"


definition empty_db :: database where
  "empty_db = \<lparr>chat_bot_documents = [], chat_bot_document_chunks = []\<rparr>"

text \<open>The two chunks after embedding, and what the processor makes of the file \<open>guide.md\<close>.\<close>

definition two_embedded :: "pydict list" where
  "two_embedded = map (\<lambda>c. c(''embedding'' \<mapsto> VList [VFloat 1, VFloat 0])) two_chunks"

definition ex_info :: doc_info where
  "ex_info =
     \<lparr>info_filename = ''guide.md'', info_title = ''guide'', info_content_type = ''.md'',
      info_file_size = 64,
      info_chunks =
        [[''content'' \<mapsto> VStr ''You may appeal within 28 days.'',
          ''metadata'' \<mapsto> VDict
            [''filename'' \<mapsto> VStr ''guide.md'', ''title'' \<mapsto> VStr ''guide'',
             ''chunk_index'' \<mapsto> VInt 0, ''section_header'' \<mapsto> VStr [],
             ''file_type'' \<mapsto> VStr ''markdown'', ''semantic_split'' \<mapsto> VBool True,
             ''sub_chunk_index'' \<mapsto> VInt 0, ''total_sub_chunks'' \<mapsto> VInt 1,
             ''total_chunks'' \<mapsto> VInt 1]]],
      info_total_chunks = 1\<rparr>"

definition ex_uploader :: uploader_services where
  "ex_uploader =
     \<lparr>up_supabase = ex_supabase, up_processor = ex_processor, up_embedding = ex_embedding,
      up_files = ex_files, up_python = ex_python\<rparr>"

definition failing_uploader :: uploader_services where
  "failing_uploader = ex_uploader\<lparr>up_embedding := failing_embedding\<rparr>"



section \<open>Strings: facts\<close>

lemma contains_iff_sublist: "contains k t \<longleftrightarrow> sublist k t"
  by (induction t) (simp_all add: sublist_Cons_right)

lemma lower_eq_if_differ_only_in_case:
  "differ_only_in_case s t \<Longrightarrow> lower s = lower t"
  unfolding differ_only_in_case_def lower_def
  by (induction s t rule: list_all2_induct) simp_all

lemma key_topics_loop_filter:
  "key_topics_loop t ks acc = acc @ filter (\<lambda>k. contains k t) ks"
  by (induction ks arbitrary: acc) simp_all

section \<open>Chunk indices\<close>

lemma metadata_of_markdown_chunk:
  "metadata_of (markdown_chunk fn t k h i n c) ''chunk_index'' = Some (VInt k)"
  by (simp add: metadata_of_def markdown_chunk_def)

lemma markdown_chunk_has_metadata:
  "\<exists>m. markdown_chunk fn t k h i n c ''metadata'' = Some (VDict m)"
  by (simp add: markdown_chunk_def)

lemma metadata_of_general_chunk:
  "metadata_of (general_chunk fn t i n c) ''chunk_index'' = Some (VInt i)"
  "metadata_of (general_chunk fn t i n c) ''total_chunks'' = Some (VInt n)"
  by (simp_all add: metadata_of_def general_chunk_def Let_def)

text \<open>Both loops in closed form: the chunks built so far, then one chunk per piece.\<close>

lemma sub_chunk_loop_eq:
  "sub_chunk_loop fn t h n i cs (chunks, k) =
     (chunks @ map (\<lambda>(j, c). markdown_chunk fn t (k + int j) h (i + int j) n c) (enumerate 0 cs),
      k + int (length cs))"
proof (induction cs arbitrary: chunks k i)
  case Nil
  then show ?case by simp
next
  case (Cons c cs)
  have shift: "map (\<lambda>(j, c). markdown_chunk fn t (k + 1 + int j) h (i + 1 + int j) n c) (enumerate 0 cs)
      = map (\<lambda>(j, c). markdown_chunk fn t (k + int j) h (i + int j) n c) (enumerate (Suc 0) cs)"
    by (simp add: enumerate_Suc_eq[of 0] split_def ac_simps)
  show ?case
    by (simp add: Cons.IH shift)
qed

lemma general_loop_eq:
  "general_loop fn t n i cs chunks =
     chunks @ map (\<lambda>(j, c). general_chunk fn t (i + int j) n c) (enumerate 0 cs)"
proof (induction cs arbitrary: chunks i)
  case Nil
  then show ?case by simp
next
  case (Cons c cs)
  have shift: "map (\<lambda>(j, c). general_chunk fn t (i + 1 + int j) n c) (enumerate 0 cs)
      = map (\<lambda>(j, c). general_chunk fn t (i + int j) n c) (enumerate (Suc 0) cs)"
    by (simp add: enumerate_Suc_eq[of 0] split_def ac_simps)
  show ?case
    by (simp add: Cons.IH shift)
qed

lemma sub_chunk_loop_indexed:
  assumes "indexed_state st"
  shows "indexed_state (sub_chunk_loop fn t h n i cs st)"
proof -
  obtain chunks k where st: "st = (chunks, k)" by (cases st)
  from assms st have k: "k = int (length chunks)"
    and old: "\<And>j. j < length chunks \<Longrightarrow>
       metadata_of (chunks ! j) ''chunk_index'' = Some (VInt (int j)) \<and>
       (\<exists>m. (chunks ! j) ''metadata'' = Some (VDict m))"
    by (simp_all add: indexed_state_def)
  show ?thesis
    unfolding st sub_chunk_loop_eq indexed_state_def
    using old
    by (auto simp: k nth_append nth_enumerate_eq metadata_of_markdown_chunk
        markdown_chunk_has_metadata)
qed

lemma header_loop_indexed:
  "header_loop p cfg fn t splits st = Inr st' \<Longrightarrow> indexed_state st \<Longrightarrow> indexed_state st'"
proof (induction splits arbitrary: st)
  case Nil
  then show ?case by simp
next
  case (Cons split rest)
  from Cons.prems(1) obtain sub_chunks where
    rest: "header_loop p cfg fn t rest
             (sub_chunk_loop fn t (header_info_of split) (int (length sub_chunks)) 0 sub_chunks st)
           = Inr st'"
    by (auto split: sum.splits)
  have "indexed_state
          (sub_chunk_loop fn t (header_info_of split) (int (length sub_chunks)) 0 sub_chunks st)"
    using Cons.prems(2) by (rule sub_chunk_loop_indexed)
  with rest show ?case by (rule Cons.IH)
qed

lemma set_total_chunks_metadata:
  "set_total_chunks n c = Inr c' \<Longrightarrow>
     metadata_of c' k = (if k = ''total_chunks'' then Some (VInt n) else metadata_of c k)"
  by (auto simp: set_total_chunks_def metadata_of_def split: option.splits pyval.splits)


lemma update_total_chunks_rel:
  "update_total_chunks n cs = Inr out \<Longrightarrow>
     list_all2 (\<lambda>c c'. set_total_chunks n c = Inr c') cs out"
  by (induction cs arbitrary: out) (auto split: sum.splits)


lemma markdown_try_indices:
  assumes "markdown_try p cfg text fn t = Inr chunks"
  shows "\<forall>j < length chunks.
           metadata_of (chunks ! j) ''chunk_index'' = Some (VInt (int j)) \<and>
           metadata_of (chunks ! j) ''total_chunks'' = Some (VInt (int (length chunks)))"
proof -
  from assms obtain splits raw k where
    loop: "header_loop p cfg fn t splits ([], 0) = Inr (raw, k)"
    and upd: "update_total_chunks (int (length raw)) raw = Inr chunks"
    by (auto simp: markdown_try_def split: sum.splits prod.splits)
  have "indexed_state ([], 0)" by (simp add: indexed_state_def)
  with loop have ix: "indexed_state (raw, k)" by (rule header_loop_indexed)
  from upd have rel: "list_all2 (\<lambda>c c'. set_total_chunks (int (length raw)) c = Inr c') raw chunks"
    by (rule update_total_chunks_rel)
  then have len: "length chunks = length raw" by (simp add: list_all2_lengthD)
  show ?thesis
  proof (intro allI impI)
    fix j assume j: "j < length chunks"
    with len have "j < length raw" by simp
    with rel have "set_total_chunks (int (length raw)) (raw ! j) = Inr (chunks ! j)"
      by (rule list_all2_nthD)
    from set_total_chunks_metadata[OF this] ix j len
    show "metadata_of (chunks ! j) ''chunk_index'' = Some (VInt (int j)) \<and>
          metadata_of (chunks ! j) ''total_chunks'' = Some (VInt (int (length chunks)))"
      by (simp add: indexed_state_def)
  qed
qed

lemma general_indices:
  assumes "chunk_general_semantic p text fn t = Inr chunks"
  shows "\<forall>j < length chunks.
           metadata_of (chunks ! j) ''chunk_index'' = Some (VInt (int j)) \<and>
           metadata_of (chunks ! j) ''total_chunks'' = Some (VInt (int (length chunks)))"
  using assms
  by (auto simp: chunk_general_semantic_def general_loop_eq nth_enumerate_eq
      metadata_of_general_chunk split: sum.splits)

lemma markdown_indices:
  assumes "chunk_markdown_semantic p cfg text fn t = Inr chunks"
  shows "\<forall>j < length chunks.
           metadata_of (chunks ! j) ''chunk_index'' = Some (VInt (int j)) \<and>
           metadata_of (chunks ! j) ''total_chunks'' = Some (VInt (int (length chunks)))"
proof (cases "markdown_try p cfg text fn t")
  case (Inl e)
  with assms have "chunk_general_semantic p text fn t = Inr chunks"
    by (simp add: chunk_markdown_semantic_def)
  then show ?thesis by (rule general_indices)
next
  case (Inr cs)
  with assms have "markdown_try p cfg text fn t = Inr chunks"
    by (simp add: chunk_markdown_semantic_def)
  then show ?thesis by (rule markdown_try_indices)
qed

text \<open>Evaluation of the example document.\<close>

lemma splitext_guide: "splitext ''guide.md'' = (''guide'', ''.md'')"
  by (simp add: splitext_def rfind_def Let_def)

lemma basename_guide: "basename ''guide.md'' = ''guide.md''"
  by (simp add: basename_def rfind_def)

lemma lower_md: "lower ''.md'' = ''.md''"
  by (simp add: lower_def char_lower_def)

lemma strip_claim: "strip ''You may claim weekly payments.'' = ''You may claim weekly payments.''"
  by (simp add: strip_def is_space_def)

lemma strip_appeal: "strip ''You may appeal within 28 days.'' = ''You may appeal within 28 days.''"
  by (simp add: strip_def is_space_def)

lemma ex_chunk_text:
  "chunk_text ex_processor ex_config ex_markdown ''guide.md'' None = Inr ex_chunks"
  by (simp add: chunk_text_def splitext_guide basename_guide lower_md title_or_stem_def
      chunk_markdown_semantic_def markdown_try_def ex_processor_def ex_sections_def
      sub_chunks_of_def section_too_long_def ex_config_def header_info_of_def md_get_def
      set_total_chunks_def markdown_chunk_def strip_claim strip_appeal ex_chunks_def Let_def)

text \<open>
  C1. Whatever the text, the file name and the title, and on either path, the chunks that
  \<open>chunk_text\<close> returns carry the \<open>chunk_index\<close> values 0, 1, ..., N-1 in this order, and
  every chunk's \<open>total_chunks\<close> is N, the number of chunks returned.
\<close>

theorem chunk_text_indices_dense:
  assumes "chunk_text p cfg text filename title = Inr chunks"
  shows "map (\<lambda>c. metadata_of c ''chunk_index'') chunks
           = map (\<lambda>i. Some (VInt (int i))) [0..<length chunks]
         \<and> (\<forall>c \<in> set chunks. metadata_of c ''total_chunks'' = Some (VInt (int (length chunks))))"
proof -
  have nth: "\<forall>j < length chunks.
               metadata_of (chunks ! j) ''chunk_index'' = Some (VInt (int j)) \<and>
               metadata_of (chunks ! j) ''total_chunks'' = Some (VInt (int (length chunks)))"
    using assms markdown_indices general_indices
    unfolding chunk_text_def Let_def
    by (metis (no_types, lifting))
  have "map (\<lambda>c. metadata_of c ''chunk_index'') chunks
           = map (\<lambda>i. Some (VInt (int i))) [0..<length chunks]"
    by (rule nth_equalityI) (simp_all add: nth)
  moreover have "\<forall>c \<in> set chunks. metadata_of c ''total_chunks'' = Some (VInt (int (length chunks)))"
    using nth by (auto simp: in_set_conv_nth)
  ultimately show ?thesis by blast
qed

theorem chunk_text_indices_dense_witness:
  "chunk_text ex_processor ex_config ex_markdown ''guide.md'' None = Inr ex_chunks
   \<and> map (\<lambda>c. metadata_of c ''chunk_index'') ex_chunks = [Some (VInt 0), Some (VInt 1)]
   \<and> map (\<lambda>c. metadata_of c ''total_chunks'') ex_chunks = [Some (VInt 2), Some (VInt 2)]"
proof -
  have len: "length ex_chunks = 2" by (simp add: ex_chunks_def)
  have upt: "[0..<2] = [0, Suc 0]" by (simp add: numeral_2_eq_2)
  have all: "map (\<lambda>c. metadata_of c ''total_chunks'') ex_chunks = [Some (VInt 2), Some (VInt 2)]"
    by (simp add: ex_chunks_def metadata_of_def)
  from chunk_text_indices_dense[OF ex_chunk_text] show ?thesis
    by (simp add: ex_chunk_text len upt all)
qed

section \<open>Re-splitting of Markdown sections\<close>













section \<open>Fallback and the empty text\<close>

lemma general_path_length:
  "token_splitter p text = Inr pieces \<Longrightarrow>
     \<exists>chunks. chunk_general_semantic p text filename title = Inr chunks \<and>
              length chunks = length pieces"
  by (simp add: chunk_general_semantic_def general_loop_eq)

lemma general_path_error:
  "token_splitter p text = Inl e \<Longrightarrow> chunk_general_semantic p text filename title = Inl e"
  by (simp add: chunk_general_semantic_def)

text \<open>
  C6. For a Markdown file name, when the header split raises, \<open>chunk_text\<close> returns what the
  general path returns for the whole text, with the same file name and title. The failure
  of the header split is dropped: the caller gets the chunks of the general path, one per
  piece of the token splitter, and sees an exception only if the token splitter itself
  raises on the text, and then that exception.
\<close>

theorem header_split_failure_falls_back:
  assumes "markdown_splitter p text = Inl e"
    and "lower (snd (splitext filename)) \<in> set [''.md'', ''.markdown'']"
  shows "chunk_text p cfg text filename title =
           chunk_general_semantic p text filename (title_or_stem title filename)
         \<and> (\<forall>pieces. token_splitter p text = Inr pieces \<longrightarrow>
               (\<exists>chunks. chunk_text p cfg text filename title = Inr chunks \<and>
                         length chunks = length pieces))
         \<and> (\<forall>e'. chunk_text p cfg text filename title = Inl e' \<longrightarrow>
               token_splitter p text = Inl e')"
proof -
  have "markdown_try p cfg text filename (title_or_stem title filename) = Inl e"
    by (simp add: markdown_try_def assms(1))
  then have eq: "chunk_text p cfg text filename title =
      chunk_general_semantic p text filename (title_or_stem title filename)"
    using assms(2) by (simp add: chunk_text_def Let_def chunk_markdown_semantic_def)
  have ok: "\<forall>pieces. token_splitter p text = Inr pieces \<longrightarrow>
               (\<exists>chunks. chunk_text p cfg text filename title = Inr chunks \<and>
                         length chunks = length pieces)"
    unfolding eq using general_path_length by blast
  have err: "\<forall>e'. chunk_text p cfg text filename title = Inl e' \<longrightarrow> token_splitter p text = Inl e'"
    unfolding eq by (auto simp: chunk_general_semantic_def split: sum.splits)
  from eq ok err show ?thesis by blast
qed

text \<open>A text with a NUL character, on which the example header splitter raises.\<close>

lemma ex_broken_split:
  "markdown_splitter ex_processor [CHR 0x00, CHR ''x''] = Inl (PyException ''cannot split'')"
  by (simp add: ex_processor_def ex_markdown_def)

lemma ex_guide_extension: "lower (snd (splitext ''guide.md'')) \<in> set [''.md'', ''.markdown'']"
  by (simp add: splitext_guide lower_md)

theorem header_split_failure_falls_back_witness:
  "markdown_splitter ex_processor [CHR 0x00, CHR ''x''] = Inl (PyException ''cannot split'')
   \<and> lower (snd (splitext ''guide.md'')) \<in> set [''.md'', ''.markdown'']
   \<and> token_splitter ex_processor [CHR 0x00, CHR ''x''] = Inr [[CHR 0x00, CHR ''x'']]
   \<and> chunk_text ex_processor ex_config [CHR 0x00, CHR ''x''] ''guide.md'' None =
        chunk_general_semantic ex_processor [CHR 0x00, CHR ''x''] ''guide.md'' ''guide''
   \<and> (\<exists>chunks. chunk_text ex_processor ex_config [CHR 0x00, CHR ''x''] ''guide.md'' None = Inr chunks
                 \<and> length chunks = 1)"
proof -
  have tok: "token_splitter ex_processor [CHR 0x00, CHR ''x''] = Inr [[CHR 0x00, CHR ''x'']]"
    by (simp add: ex_processor_def)
  have stem: "title_or_stem None ''guide.md'' = ''guide''"
    by (simp add: title_or_stem_def basename_guide splitext_guide)
  note fb = header_split_failure_falls_back[OF ex_broken_split ex_guide_extension, of ex_config None]
  from fb have same: "chunk_text ex_processor ex_config [CHR 0x00, CHR ''x''] ''guide.md'' None =
        chunk_general_semantic ex_processor [CHR 0x00, CHR ''x''] ''guide.md'' ''guide''"
    by (simp add: stem)
  from fb tok have one: "\<exists>chunks. chunk_text ex_processor ex_config [CHR 0x00, CHR ''x''] ''guide.md'' None
                   = Inr chunks \<and> length chunks = 1"
    by fastforce
  from same one tok ex_broken_split ex_guide_extension show ?thesis
    by blast
qed

text \<open>
  C8. For every file name and title, the empty text gives the empty chunk sequence and no
  exception. Both library splitters return no piece for the empty text; should the header
  splitter raise instead, the general path still returns no chunk.
\<close>

theorem empty_text_gives_no_chunks:
  assumes "token_splitter p [] = Inr []"
    and "markdown_splitter p [] = Inr [] \<or> (\<exists>e. markdown_splitter p [] = Inl e)"
  shows "chunk_text p cfg [] filename title = Inr []"
proof -
  have general: "\<And>t. chunk_general_semantic p [] filename t = Inr []"
    by (simp add: chunk_general_semantic_def assms(1))
  have "\<And>t. chunk_markdown_semantic p cfg [] filename t = Inr []"
    using assms(2)
    by (auto simp: chunk_markdown_semantic_def markdown_try_def general)
  with general show ?thesis
    by (simp add: chunk_text_def Let_def)
qed

theorem empty_text_gives_no_chunks_witness:
  "token_splitter ex_processor [] = Inr []
   \<and> markdown_splitter ex_processor [] = Inr []
   \<and> chunk_text ex_processor ex_config [] ''guide.md'' None = Inr []
   \<and> chunk_text ex_processor ex_config [] ''report.pdf'' (Some ''Report'') = Inr []"
proof -
  have tok: "token_splitter ex_processor [] = Inr []"
    by (simp add: ex_processor_def)
  have md: "markdown_splitter ex_processor [] = Inr []"
    by (simp add: ex_processor_def ex_markdown_def)
  then have md': "markdown_splitter ex_processor [] = Inr [] \<or> (\<exists>e. markdown_splitter ex_processor [] = Inl e)"
    by simp
  from empty_text_gives_no_chunks[OF tok md', of ex_config "''guide.md''" None]
       empty_text_gives_no_chunks[OF tok md', of ex_config "''report.pdf''" "Some ''Report''"]
  show ?thesis using tok md by simp
qed

section \<open>Classification and key topics\<close>

lemma list_ex_contains: "list_ex (\<lambda>w. contains w t) ws \<longleftrightarrow> (\<exists>w \<in> set ws. sublist w t)"
  by (simp add: list_ex_iff contains_iff_sublist)

lemma content_type_first_match:
  "content_type (extract_semantic_info text) = first_matching_group (lower text) keyword_groups"
  by (simp add: extract_semantic_info_def Let_def keyword_groups_def list_ex_contains)

lemma first_matching_group_general:
  "\<forall>g \<in> set groups. fst g \<noteq> ''general'' \<Longrightarrow>
     first_matching_group t groups = ''general'' \<longleftrightarrow>
       (\<forall>g \<in> set groups. \<forall>w \<in> set (snd g). \<not> sublist w t)"
proof (induction groups)
  case Nil
  then show ?case by simp
next
  case (Cons g groups)
  obtain name ws where g: "g = (name, ws)" by (cases g)
  from Cons.prems have name: "name \<noteq> ''general''" and rest: "\<forall>g \<in> set groups. fst g \<noteq> ''general''"
    by (simp_all add: g)
  show ?case
  proof (cases "\<exists>w \<in> set ws. sublist w t")
    case True
    with name show ?thesis by (auto simp: g)
  next
    case False
    with Cons.IH[OF rest] show ?thesis by (simp add: g)
  qed
qed

lemma metadata_content_type:
  "metadata_of (general_chunk filename title i n text) ''content_type'' =
     Some (VStr (content_type (extract_semantic_info text)))"
  by (simp add: metadata_of_def general_chunk_def Let_def)

text \<open>
  C5. The \<open>content_type\<close> that the general path writes into a chunk's metadata is the name
  of the first keyword group, in the order claims, legal, procedural, contact, of which
  some keyword occurs in the lower-cased chunk text; it is \<open>general\<close> exactly when no
  keyword of any group occurs there.
\<close>

theorem content_type_precedence:
  "metadata_of (general_chunk filename title i n text) ''content_type'' =
     Some (VStr (first_matching_group (lower text) keyword_groups))
   \<and> (content_type (extract_semantic_info text) = ''general'' \<longleftrightarrow>
        (\<forall>g \<in> set keyword_groups. \<forall>w \<in> set (snd g). \<not> sublist w (lower text)))"
proof -
  have names: "\<forall>g \<in> set keyword_groups. fst g \<noteq> ''general''"
    by (simp add: keyword_groups_def)
  show ?thesis
    using first_matching_group_general[OF names, of "lower text"]
    by (simp add: metadata_content_type content_type_first_match)
qed

lemma contains_phone: "contains ''phone'' (lower ''Phone us about the new Policy'')"
  by (simp add: lower_def char_lower_def)

lemma contains_policy: "contains ''policy'' (lower ''Phone us about the new Policy'')"
  by (simp add: lower_def char_lower_def)

lemma ex_legal_type: "content_type (extract_semantic_info ''Phone us about the new Policy'') = ''legal''"
  by (simp add: extract_semantic_info_def Let_def lower_def char_lower_def
      claims_words_def legal_words_def)

lemma ex_general_type: "content_type (extract_semantic_info ''Good Morning'') = ''general''"
  by (simp add: extract_semantic_info_def Let_def lower_def char_lower_def
      claims_words_def legal_words_def procedural_words_def contact_words_def)

theorem content_type_precedence_witness:
  "sublist ''phone'' (lower ''Phone us about the new Policy'')
   \<and> sublist ''policy'' (lower ''Phone us about the new Policy'')
   \<and> metadata_of (general_chunk ''faq.pdf'' ''faq'' 0 1 ''Phone us about the new Policy'') ''content_type''
        = Some (VStr ''legal'')
   \<and> metadata_of (general_chunk ''faq.pdf'' ''faq'' 0 1 ''Good Morning'') ''content_type''
        = Some (VStr ''general'')
   \<and> list_all (\<lambda>g. list_all (\<lambda>w. \<not> sublist w (lower ''Good Morning'')) (snd g)) keyword_groups"
proof -
  note legal = content_type_precedence[of "''faq.pdf''" "''faq''" 0 1 "''Phone us about the new Policy''"]
  note general = content_type_precedence[of "''faq.pdf''" "''faq''" 0 1 "''Good Morning''"]
  have a: "metadata_of (general_chunk ''faq.pdf'' ''faq'' 0 1 ''Phone us about the new Policy'') ''content_type''
        = Some (VStr ''legal'')"
    using legal ex_legal_type by (simp add: content_type_first_match)
  have b: "metadata_of (general_chunk ''faq.pdf'' ''faq'' 0 1 ''Good Morning'') ''content_type''
        = Some (VStr ''general'')"
    using general ex_general_type by (simp add: content_type_first_match)
  have c: "list_all (\<lambda>g. list_all (\<lambda>w. \<not> sublist w (lower ''Good Morning'')) (snd g)) keyword_groups"
    using general ex_general_type by (simp add: list_all_iff)
  from a b c contains_phone contains_policy show ?thesis
    by (simp add: contains_iff_sublist)
qed

text \<open>
  C7. Two chunk texts that differ only in letter case get the same \<open>key_topics\<close>. The
  list holds exactly the keywords of the vocabulary that occur in the lower-cased text, in
  the order of the vocabulary.
\<close>

theorem key_topics_case_insensitive:
  assumes "differ_only_in_case s t"
  shows "key_topics (extract_semantic_info s) = key_topics (extract_semantic_info t)
         \<and> key_topics (extract_semantic_info s) = filter (\<lambda>k. sublist k (lower s)) keywords_list
         \<and> (\<forall>k \<in> set keywords_list.
               k \<in> set (key_topics (extract_semantic_info s)) \<longleftrightarrow>
               k \<in> set (key_topics (extract_semantic_info t)))"
proof -
  have low: "lower s = lower t"
    using assms by (rule lower_eq_if_differ_only_in_case)
  have topics: "\<And>x. key_topics (extract_semantic_info x) = filter (\<lambda>k. sublist k (lower x)) keywords_list"
    by (simp add: extract_semantic_info_def Let_def key_topics_loop_filter contains_iff_sublist)
  show ?thesis
    by (simp add: topics low)
qed

lemma ex_differ:
  "differ_only_in_case ''Workers Compensation Appeal'' ''workers compensation APPEAL''"
  by (simp add: differ_only_in_case_def char_lower_def)

lemma ex_topics:
  "key_topics (extract_semantic_info ''Workers Compensation Appeal'') = [''workers compensation'', ''appeal'']"
  by (simp add: extract_semantic_info_def Let_def lower_def char_lower_def keywords_list_def)

theorem key_topics_case_insensitive_witness:
  "differ_only_in_case ''Workers Compensation Appeal'' ''workers compensation APPEAL''
   \<and> key_topics (extract_semantic_info ''Workers Compensation Appeal'') = [''workers compensation'', ''appeal'']
   \<and> key_topics (extract_semantic_info ''workers compensation APPEAL'') = [''workers compensation'', ''appeal'']"
  using key_topics_case_insensitive[OF ex_differ] ex_differ ex_topics
  by simp

section \<open>Embedding the chunks\<close>

lemma contents_of_total:
  "\<forall>c \<in> set chunks. c ''content'' \<noteq> None \<Longrightarrow>
     contents_of chunks = Inr (map (\<lambda>c. the (c ''content'')) chunks)"
  by (induction chunks) (auto simp: getitem_def)

lemma contents_of_Inr:
  "contents_of chunks = Inr texts \<Longrightarrow> texts = map (\<lambda>c. the (c ''content'')) chunks"
  by (induction chunks arbitrary: texts) (auto simp: getitem_def split: option.splits sum.splits)

lemma assign_embeddings_total:
  "i + length vs \<le> length chunks \<Longrightarrow> \<exists>out. assign_embeddings i vs chunks = Inr out"
  by (induction vs arbitrary: i chunks) simp_all

lemma assign_embeddings_nth:
  "assign_embeddings i vs chunks = Inr out \<Longrightarrow>
     length out = length chunks \<and>
     (\<forall>j < length chunks.
        out ! j = (if i \<le> j \<and> j < i + length vs
                   then (chunks ! j)(''embedding'' \<mapsto> VList (map VFloat (vs ! (j - i))))
                   else chunks ! j))"
proof (induction vs arbitrary: i chunks)
  case Nil
  then show ?case by auto
next
  case (Cons v vs)
  let ?chunks1 = "chunks[i := (chunks ! i)(''embedding'' \<mapsto> VList (map VFloat v))]"
  from Cons.prems have i: "i < length chunks"
    and rest: "assign_embeddings (i + 1) vs ?chunks1 = Inr out"
    by (simp_all split: if_splits)
  from Cons.IH[OF rest] have len: "length out = length chunks"
    and nth: "\<And>j. j < length chunks \<Longrightarrow>
        out ! j = (if i + 1 \<le> j \<and> j < i + 1 + length vs
                   then (?chunks1 ! j)(''embedding'' \<mapsto> VList (map VFloat (vs ! (j - (i + 1)))))
                   else ?chunks1 ! j)"
    by simp_all
  have "out ! j = (if i \<le> j \<and> j < i + length (v # vs)
                   then (chunks ! j)(''embedding'' \<mapsto> VList (map VFloat ((v # vs) ! (j - i))))
                   else chunks ! j)" if j: "j < length chunks" for j
  proof (cases "j = i")
    case True
    with nth[OF j] i show ?thesis by simp
  next
    case False
    with nth[OF j] show ?thesis
      by (auto simp: nth_Cons' Suc_diff_Suc)
  qed
  with len show ?case by simp
qed

lemma embed_chunks_length:
  "embed_chunks es chunks = Inr out \<Longrightarrow> length out = length chunks"
  by (auto simp: embed_chunks_def split: sum.splits dest: assign_embeddings_nth)

text \<open>
  C9. When every chunk has a \<open>content\<close> and the provider answers the batch of contents with
  one vector per chunk, \<open>embed_chunks\<close> returns a list of the same length in which chunk
  \<open>i\<close> has \<open>embedding\<close> set to the \<open>i\<close>-th vector and every other key as before.
\<close>

theorem embed_chunks_adds_embedding_only:
  assumes "\<forall>c \<in> set chunks. c ''content'' \<noteq> None"
    and "embeddings_create es (VList (map (\<lambda>c. the (c ''content'')) chunks)) = Inr vs"
    and "length vs = length chunks"
  shows "\<exists>out. embed_chunks es chunks = Inr out \<and> length out = length chunks \<and>
           (\<forall>i < length chunks.
              (out ! i) ''embedding'' = Some (VList (map VFloat (vs ! i))) \<and>
              (\<forall>k. k \<noteq> ''embedding'' \<longrightarrow> (out ! i) k = (chunks ! i) k))"
proof -
  have texts: "contents_of chunks = Inr (map (\<lambda>c. the (c ''content'')) chunks)"
    using assms(1) by (rule contents_of_total)
  have batch: "get_embeddings_batch es (map (\<lambda>c. the (c ''content'')) chunks) = Inr vs"
    by (simp add: get_embeddings_batch_def assms(2))
  have "0 + length vs \<le> length chunks" by (simp add: assms(3))
  then obtain out where out: "assign_embeddings 0 vs chunks = Inr out"
    using assign_embeddings_total by blast
  have res: "embed_chunks es chunks = Inr out"
    by (simp add: embed_chunks_def texts batch out)
  from assign_embeddings_nth[OF out] assms(3)
  have "length out = length chunks"
    and "\<forall>i < length chunks. out ! i = (chunks ! i)(''embedding'' \<mapsto> VList (map VFloat (vs ! i)))"
    by simp_all
  with res show ?thesis by simp
qed

lemma ex_embed_two:
  "embed_chunks ex_embedding two_chunks =
     Inr [(two_chunks ! 0)(''embedding'' \<mapsto> VList [VFloat 1, VFloat 0]),
          (two_chunks ! 1)(''embedding'' \<mapsto> VList [VFloat 1, VFloat 0])]"
  by (simp add: embed_chunks_def two_chunks_def getitem_def get_embeddings_batch_def
      ex_embedding_def)

theorem embed_chunks_adds_embedding_only_witness:
  "list_all (\<lambda>c. c ''content'' \<noteq> None) two_chunks
   \<and> embeddings_create ex_embedding (VList (map (\<lambda>c. the (c ''content'')) two_chunks)) = Inr [[1, 0], [1, 0]]
   \<and> length [[1, 0], [1, 0 :: real]] = length two_chunks
   \<and> (\<exists>out. embed_chunks ex_embedding two_chunks = Inr out \<and> length out = 2
         \<and> (out ! 0) ''embedding'' = Some (VList [VFloat 1, VFloat 0])
         \<and> (out ! 1) ''embedding'' = Some (VList [VFloat 1, VFloat 0])
         \<and> (out ! 0) ''content'' = Some (VStr ''first'')
         \<and> (out ! 1) ''metadata'' = Some (VDict [''chunk_index'' \<mapsto> VInt 7]))"
proof -
  have has: "list_all (\<lambda>c. c ''content'' \<noteq> None) two_chunks"
    by (simp add: two_chunks_def)
  then have pre1: "\<forall>c \<in> set two_chunks. c ''content'' \<noteq> None"
    by (simp add: list_all_iff)
  have pre2: "embeddings_create ex_embedding (VList (map (\<lambda>c. the (c ''content'')) two_chunks))
        = Inr [[1, 0], [1, 0]]"
    by (simp add: ex_embedding_def two_chunks_def)
  have pre3: "length [[1, 0], [1, 0 :: real]] = length two_chunks"
    by (simp add: two_chunks_def)
  from embed_chunks_adds_embedding_only[OF pre1 pre2 pre3]
  obtain out where out: "embed_chunks ex_embedding two_chunks = Inr out"
    and len: "length out = length two_chunks"
    and each: "\<forall>i < length two_chunks.
              (out ! i) ''embedding'' = Some (VList (map VFloat ([[1, 0], [1, 0]] ! i))) \<and>
              (\<forall>k. k \<noteq> ''embedding'' \<longrightarrow> (out ! i) k = (two_chunks ! i) k)"
    by blast
  have l2: "length two_chunks = 2" by (simp add: two_chunks_def)
  from each l2 have e0: "(out ! 0) ''embedding'' = Some (VList [VFloat 1, VFloat 0])"
    and e1: "(out ! 1) ''embedding'' = Some (VList [VFloat 1, VFloat 0])"
    and c0: "(out ! 0) ''content'' = Some (VStr ''first'')"
    and m1: "(out ! 1) ''metadata'' = Some (VDict [''chunk_index'' \<mapsto> VInt 7])"
    by (simp_all add: two_chunks_def)
  from has pre2 pre3 out len l2 e0 e1 c0 m1 show ?thesis by simp
qed

section \<open>Writing to the store\<close>

lemma chunk_data_loop_rows:
  "chunk_data_loop py d i chunks acc = Inr rows \<Longrightarrow>
     \<exists>new. rows = acc @ new \<and> length new = length chunks \<and>
       (\<forall>j < length chunks.
          row_chunk_index (new ! j) = i + int j \<and>
          row_document_id (new ! j) = d \<and>
          (chunks ! j) ''content'' = Some (row_content (new ! j)) \<and>
          (chunks ! j) ''embedding'' = Some (row_embedding (new ! j)))"
proof (induction chunks arbitrary: i acc)
  case Nil
  then show ?case by simp
next
  case (Cons chunk rest)
  from Cons.prems obtain c m ms emb where
    c: "chunk ''content'' = Some c" and emb: "chunk ''embedding'' = Some emb" and
    call: "chunk_data_loop py d (i + 1) rest
             (acc @ [\<lparr>row_document_id = d, row_chunk_index = i, row_content = c,
                      row_metadata = ms, row_embedding = emb\<rparr>]) = Inr rows"
    by (auto simp: getitem_def split: option.splits sum.splits)
  let ?row = "\<lparr>row_document_id = d, row_chunk_index = i, row_content = c,
               row_metadata = ms, row_embedding = emb\<rparr>"
  from Cons.IH[OF call] obtain new where
    rows: "rows = (acc @ [?row]) @ new" and len: "length new = length rest" and
    nth: "\<And>j. j < length rest \<Longrightarrow>
          row_chunk_index (new ! j) = i + 1 + int j \<and>
          row_document_id (new ! j) = d \<and>
          (rest ! j) ''content'' = Some (row_content (new ! j)) \<and>
          (rest ! j) ''embedding'' = Some (row_embedding (new ! j))"
    by blast
  have "\<forall>j < length (chunk # rest).
          row_chunk_index ((?row # new) ! j) = i + int j \<and>
          row_document_id ((?row # new) ! j) = d \<and>
          ((chunk # rest) ! j) ''content'' = Some (row_content ((?row # new) ! j)) \<and>
          ((chunk # rest) ! j) ''embedding'' = Some (row_embedding ((?row # new) ! j))"
  proof (intro allI impI)
    fix j assume j: "j < length (chunk # rest)"
    show "row_chunk_index ((?row # new) ! j) = i + int j \<and>
          row_document_id ((?row # new) ! j) = d \<and>
          ((chunk # rest) ! j) ''content'' = Some (row_content ((?row # new) ! j)) \<and>
          ((chunk # rest) ! j) ''embedding'' = Some (row_embedding ((?row # new) ! j))"
    proof (cases j)
      case 0
      then show ?thesis by (simp add: c emb)
    next
      case (Suc j')
      with j have "j' < length rest" by simp
      from nth[OF this] Suc show ?thesis by simp
    qed
  qed
  moreover have "rows = acc @ (?row # new)" by (simp add: rows)
  moreover have "length (?row # new) = length (chunk # rest)" by (simp add: len)
  ultimately show ?case by blast
qed

lemma rows_indices:
  assumes "length rows = n" and "\<forall>j < n. row_chunk_index (rows ! j) = 0 + int j"
  shows "map row_chunk_index rows = map int [0..<n]"
  by (rule nth_equalityI) (simp_all add: assms)

lemma insert_chunks_written:
  assumes "insert_chunks c py db document_id chunks = (r, db')"
  shows "(\<forall>e. r = Inl e \<longrightarrow> db' = db)
         \<and> (r = Inr () \<longrightarrow>
              (\<exists>rows. chat_bot_document_chunks db' = chat_bot_document_chunks db @ rows \<and>
                      chat_bot_documents db' = chat_bot_documents db \<and>
                      map row_chunk_index rows = map int [0..<length chunks] \<and>
                      (\<forall>j < length chunks.
                         row_document_id (rows ! j) = document_id \<and>
                         (chunks ! j) ''content'' = Some (row_content (rows ! j)) \<and>
                         (chunks ! j) ''embedding'' = Some (row_embedding (rows ! j)))))"
proof (cases "chunk_data_loop py document_id 0 chunks []")
  case (Inl e)
  with assms show ?thesis by (auto simp: insert_chunks_def)
next
  case (Inr chunk_data)
  from chunk_data_loop_rows[OF Inr] have len: "length chunk_data = length chunks"
    and nth: "\<forall>j < length chunks.
          row_chunk_index (chunk_data ! j) = 0 + int j \<and>
          row_document_id (chunk_data ! j) = document_id \<and>
          (chunks ! j) ''content'' = Some (row_content (chunk_data ! j)) \<and>
          (chunks ! j) ''embedding'' = Some (row_embedding (chunk_data ! j))"
    by auto
  have idx: "map row_chunk_index chunk_data = map int [0..<length chunks]"
    using len nth by (intro rows_indices) simp_all
  show ?thesis
  proof (cases "chunks_insert c db chunk_data")
    case None
    with assms Inr have "r = Inr ()"
      and "db' = db\<lparr>chat_bot_document_chunks := chat_bot_document_chunks db @ chunk_data\<rparr>"
      by (simp_all add: insert_chunks_def)
    with idx nth show ?thesis by auto
  next
    case (Some e)
    with assms Inr show ?thesis by (auto simp: insert_chunks_def)
  qed
qed

text \<open>
  C10. For every document id and list of chunks: when \<open>insert_chunks\<close> raises, nothing is
  written; when it returns, the rows it wrote are one per chunk, in the order of the list,
  and their \<open>chunk_index\<close> values are the positions 0, 1, ..., N-1, whatever the chunks' own
  metadata says.
\<close>

theorem insert_chunks_index_is_position:
  assumes "insert_chunks c py db document_id chunks = (r, db')"
  shows "(\<forall>e. r = Inl e \<longrightarrow> db' = db)
         \<and> (r = Inr () \<longrightarrow>
              (\<exists>rows. chat_bot_document_chunks db' = chat_bot_document_chunks db @ rows \<and>
                      chat_bot_documents db' = chat_bot_documents db \<and>
                      map row_chunk_index rows = map int [0..<length chunks] \<and>
                      (\<forall>j < length chunks.
                         row_document_id (rows ! j) = document_id \<and>
                         (chunks ! j) ''content'' = Some (row_content (rows ! j)) \<and>
                         (chunks ! j) ''embedding'' = Some (row_embedding (rows ! j)))))"
  using assms by (rule insert_chunks_written)

lemma ex_insert_two:
  "insert_chunks ex_supabase ex_python empty_db ''doc-1'' two_embedded =
     (Inr (),
      \<lparr>chat_bot_documents = [],
       chat_bot_document_chunks =
         [\<lparr>row_document_id = ''doc-1'', row_chunk_index = 0, row_content = VStr ''first'',
           row_metadata = ''{}'', row_embedding = VList [VFloat 1, VFloat 0]\<rparr>,
          \<lparr>row_document_id = ''doc-1'', row_chunk_index = 1, row_content = VStr ''second'',
           row_metadata = ''{}'', row_embedding = VList [VFloat 1, VFloat 0]\<rparr>]\<rparr>)"
  by (simp add: insert_chunks_def two_embedded_def two_chunks_def getitem_def ex_python_def
      ex_supabase_def empty_db_def)

theorem insert_chunks_index_is_position_witness:
  "fst (insert_chunks ex_supabase ex_python empty_db ''doc-1'' two_embedded) = Inr ()
   \<and> map (\<lambda>c. metadata_of c ''chunk_index'') two_embedded = [Some (VInt 7), Some (VInt 7)]
   \<and> map row_chunk_index
        (chat_bot_document_chunks (snd (insert_chunks ex_supabase ex_python empty_db ''doc-1'' two_embedded)))
      = [0, 1]"
proof -
  have own: "map (\<lambda>c. metadata_of c ''chunk_index'') two_embedded = [Some (VInt 7), Some (VInt 7)]"
    by (simp add: two_embedded_def two_chunks_def metadata_of_def)
  have len: "length two_embedded = 2" by (simp add: two_embedded_def two_chunks_def)
  have upt: "[0..<2] = [0, Suc 0]" by (simp add: numeral_2_eq_2)
  from insert_chunks_index_is_position[OF ex_insert_two]
  obtain rows where
    "chat_bot_document_chunks
       \<lparr>chat_bot_documents = [],
        chat_bot_document_chunks =
          [\<lparr>row_document_id = ''doc-1'', row_chunk_index = 0, row_content = VStr ''first'',
            row_metadata = ''{}'', row_embedding = VList [VFloat 1, VFloat 0]\<rparr>,
           \<lparr>row_document_id = ''doc-1'', row_chunk_index = 1, row_content = VStr ''second'',
            row_metadata = ''{}'', row_embedding = VList [VFloat 1, VFloat 0]\<rparr>]\<rparr>
     = chat_bot_document_chunks empty_db @ rows"
    and idx: "map row_chunk_index rows = map int [0..<length two_embedded]"
    by blast
  moreover have "chat_bot_document_chunks empty_db = []" by (simp add: empty_db_def)
  ultimately have "chat_bot_document_chunks
        (snd (insert_chunks ex_supabase ex_python empty_db ''doc-1'' two_embedded)) = rows"
    by (simp add: ex_insert_two)
  with idx have "map row_chunk_index
        (chat_bot_document_chunks (snd (insert_chunks ex_supabase ex_python empty_db ''doc-1'' two_embedded)))
      = [0, 1]"
    by (simp add: len upt)
  with own show ?thesis by (simp add: ex_insert_two)
qed

section \<open>Ingestion of one document\<close>

lemma insert_document_chunks:
  "insert_document c db filename title ctype fsize = (r, db1) \<Longrightarrow>
     chat_bot_document_chunks db1 = chat_bot_document_chunks db \<and> (\<forall>e. r = Inl e \<longrightarrow> db1 = db)"
  by (auto simp: insert_document_def split: sum.splits)

lemma store_document_chunks:
  "chat_bot_document_chunks (store_document sv db info chunks) = chat_bot_document_chunks db
   \<or> (\<exists>rows. chat_bot_document_chunks (store_document sv db info chunks)
                = chat_bot_document_chunks db @ rows \<and>
              map row_chunk_index rows = map int [0..<length chunks])"
proof -
  obtain r db1 where ins: "insert_document (up_supabase sv) db (info_filename info) (info_title info)
             (info_content_type info) (info_file_size info) = (r, db1)"
    by (metis surj_pair)
  from insert_document_chunks[OF ins] have same: "chat_bot_document_chunks db1 = chat_bot_document_chunks db"
    by simp
  show ?thesis
  proof (cases r)
    case (Inl e)
    with ins same show ?thesis by (simp add: store_document_def)
  next
    case (Inr document_id)
    obtain r2 db2 where ch: "insert_chunks (up_supabase sv) (up_python sv) db1 document_id chunks = (r2, db2)"
      by (metis surj_pair)
    from ins Inr ch have res: "store_document sv db info chunks = db2"
      by (simp add: store_document_def)
    note pos = insert_chunks_written[OF ch]
    show ?thesis
    proof (cases r2)
      case (Inl e)
      with pos have "db2 = db1" by simp
      with res same show ?thesis by simp
    next
      case (Inr u)
      with pos obtain rows where
        "chat_bot_document_chunks db2 = chat_bot_document_chunks db1 @ rows"
        "map row_chunk_index rows = map int [0..<length chunks]"
        by auto
      with res same show ?thesis by auto
    qed
  qed
qed

text \<open>
  C3. For a file that the processor has turned into chunks: when the embedding step raises,
  the upload of that file leaves the database as it was, with no document row and no chunk
  row written. In every case the chunk table after the upload is either the table before,
  or the table before followed by one row for each chunk of the document, written after
  the embedding step returned.
\<close>

theorem no_partial_chunk_persistence:
  assumes "process_document (up_processor sv) cfg (up_files sv) file_path None = Inr info"
  shows "(\<forall>e. embed_chunks (up_embedding sv) (info_chunks info) = Inl e \<longrightarrow>
             upload_file sv cfg db file_path = db)
         \<and> (chat_bot_document_chunks (upload_file sv cfg db file_path) = chat_bot_document_chunks db
            \<or> (\<exists>rows out. embed_chunks (up_embedding sv) (info_chunks info) = Inr out \<and>
                  chat_bot_document_chunks (upload_file sv cfg db file_path)
                    = chat_bot_document_chunks db @ rows \<and>
                  map row_chunk_index rows = map int [0..<length (info_chunks info)]))"
proof (cases "embed_chunks (up_embedding sv) (info_chunks info)")
  case (Inl e)
  with assms have "upload_file sv cfg db file_path = db"
    by (simp add: upload_file_def)
  with Inl show ?thesis by simp
next
  case (Inr out)
  then have len: "length out = length (info_chunks info)"
    by (rule embed_chunks_length)
  show ?thesis
  proof (cases "path_exists (up_files sv) file_path")
    case False
    then have "upload_file sv cfg db file_path = db" by (simp add: upload_file_def)
    with Inr show ?thesis by simp
  next
    case True
    with assms Inr have "upload_file sv cfg db file_path = store_document sv db info out"
      by (simp add: upload_file_def)
    with store_document_chunks[of sv db info out] Inr len show ?thesis
      by auto
  qed
qed

lemma ex_extract: "extract_text ex_files ''guide.md'' = Inr ''You may appeal within 28 days.''"
  by (simp add: extract_text_def Let_def splitext_guide lower_md extract_text_from_markdown_def
      ex_files_def strip_appeal)

lemma ex_single_section:
  "chunk_text ex_processor ex_config ''You may appeal within 28 days.'' ''guide.md'' (Some ''guide'')
     = Inr (info_chunks ex_info)"
  by (simp add: chunk_text_def splitext_guide lower_md title_or_stem_def
      chunk_markdown_semantic_def markdown_try_def ex_processor_def ex_markdown_def
      sub_chunks_of_def section_too_long_def ex_config_def header_info_of_def md_get_def
      set_total_chunks_def markdown_chunk_def strip_appeal ex_info_def Let_def)

lemma ex_process:
  "process_document ex_processor ex_config ex_files ''guide.md'' None = Inr ex_info"
proof -
  have size: "getsize ex_files ''guide.md'' = Inr 64" by (simp add: ex_files_def)
  show ?thesis
    by (simp add: process_document_def ex_extract basename_guide splitext_guide lower_md size
        ex_single_section Let_def)
      (simp add: ex_info_def)
qed

lemma ex_embed_fails:
  "embed_chunks failing_embedding (info_chunks ex_info) =
     Inl (PyException ''Error getting batch embeddings: quota exceeded'')"
  by (simp add: embed_chunks_def ex_info_def getitem_def get_embeddings_batch_def
      failing_embedding_def)

lemma ex_upload:
  "map row_chunk_index (chat_bot_document_chunks (upload_file ex_uploader ex_config empty_db ''guide.md''))
     = [0]"
proof -
  have ex: "path_exists ex_files ''guide.md''" by (simp add: ex_files_def)
  have emb: "embed_chunks ex_embedding (info_chunks ex_info) =
      Inr [(info_chunks ex_info ! 0)(''embedding'' \<mapsto> VList [VFloat 1, VFloat 0])]"
    by (simp add: embed_chunks_def ex_info_def getitem_def get_embeddings_batch_def
        ex_embedding_def)
  have up: "upload_file ex_uploader ex_config empty_db ''guide.md'' =
      store_document ex_uploader empty_db ex_info
        [(info_chunks ex_info ! 0)(''embedding'' \<mapsto> VList [VFloat 1, VFloat 0])]"
    by (simp add: upload_file_def ex_uploader_def ex_process ex emb)
  show ?thesis
    unfolding up
    by (simp add: store_document_def insert_document_def ex_uploader_def ex_supabase_def
        insert_chunks_def ex_python_def empty_db_def ex_info_def getitem_def)
qed

theorem no_partial_chunk_persistence_witness:
  "process_document (up_processor failing_uploader) ex_config (up_files failing_uploader) ''guide.md'' None
     = Inr ex_info
   \<and> embed_chunks (up_embedding failing_uploader) (info_chunks ex_info)
     = Inl (PyException ''Error getting batch embeddings: quota exceeded'')
   \<and> upload_file failing_uploader ex_config empty_db ''guide.md'' = empty_db
   \<and> length (info_chunks ex_info) = 1
   \<and> map row_chunk_index (chat_bot_document_chunks (upload_file ex_uploader ex_config empty_db ''guide.md''))
     = [0]"
proof -
  have p: "process_document (up_processor failing_uploader) ex_config (up_files failing_uploader)
             ''guide.md'' None = Inr ex_info"
    by (simp add: failing_uploader_def ex_uploader_def ex_process)
  have f: "embed_chunks (up_embedding failing_uploader) (info_chunks ex_info)
     = Inl (PyException ''Error getting batch embeddings: quota exceeded'')"
    by (simp add: failing_uploader_def ex_uploader_def ex_embed_fails)
  from no_partial_chunk_persistence[OF p, of empty_db] f
  have same: "upload_file failing_uploader ex_config empty_db ''guide.md'' = empty_db"
    by simp
  have one: "length (info_chunks ex_info) = 1" by (simp add: ex_info_def)
  from p f same one ex_upload show ?thesis by simp
qed

section \<open>Answering a question\<close>











end
